theory Spec2Isabelle
  imports Complex_Main "HOL-Library.Multiset"
begin

section \<open>Time\<close>

text \<open>
  The services handle instants through moment objects and ISO strings. An instant is
  modelled as the number of milliseconds on the local wall clock (an \<open>int\<close>); an ISO
  string carries milliseconds, so \<open>moment(x.toISOString())\<close> is the identity and both
  are the same \<open>int\<close> here. Only well-formed date values are modelled (an unparseable
  string has no instant), and a service function that receives a \<open>date\<close> receives the
  instant \<open>moment(date)\<close>.
\<close>

type_synonym instant = int

definition MINUTE :: int where
  "MINUTE = 60000"

definition HOUR :: int where
  "HOUR = 3600000"

definition DAY :: int where
  "DAY = 86400000"

text \<open>\<open>m.startOf('day')\<close> and \<open>m.endOf('day')\<close>\<close>

definition startOfDay :: "instant \<Rightarrow> instant" where
  "startOfDay t = t - t mod DAY"

definition endOfDay :: "instant \<Rightarrow> instant" where
  "endOfDay t = startOfDay t + DAY - 1"

text \<open>\<open>m.hour(h).minute(0).second(0)\<close>: the millisecond field is left as it is.\<close>

definition atHour :: "instant \<Rightarrow> int \<Rightarrow> instant" where
  "atHour t h = startOfDay t + h * HOUR + t mod 1000"

text \<open>
  A \<open>{date, time}\<close> pair: \<open>date\<close> is the calendar day (\<open>YYYY-MM-DD\<close>, as a day
  number) and \<open>time\<close> the time of day (milliseconds after midnight).
  \<open>moment(`${date}T${time}`)\<close> is \<open>preferredDateTime\<close>; \<open>format('YYYY-MM-DD')\<close> and
  \<open>format('HH:mm')\<close> are \<open>formatDate\<close> and \<open>formatTime\<close> (seconds and milliseconds
  are not printed).
\<close>

record timePreference =
  date :: int
  time :: int

definition momentOfDate :: "int \<Rightarrow> instant" where
  "momentOfDate d = d * DAY"

definition preferredDateTime :: "timePreference \<Rightarrow> instant" where
  "preferredDateTime preference = momentOfDate (date preference) + time preference"

definition formatDate :: "instant \<Rightarrow> int" where
  "formatDate t = t div DAY"

definition formatTime :: "instant \<Rightarrow> int" where
  "formatTime t = (t mod DAY) div MINUTE * MINUTE"

text \<open>\<open>t.isBetween(from, to, null, '[)')\<close>\<close>

definition isBetween :: "instant \<Rightarrow> instant \<Rightarrow> instant \<Rightarrow> bool" where
  "isBetween t from to = (from \<le> t \<and> t < to)"

section \<open>Data\<close>

record slot =
  start :: instant
  end' :: instant

record appointment = slot +
  id :: string
  summary :: string
  location :: string
  status :: string

record createdAppointment = appointment +
  notes' :: string

record eventDateTime =
  dateTime :: instant

record calendarEvent =
  event_id :: string
  event_summary :: string
  event_location :: string
  event_start :: eventDateTime
  event_end :: eventDateTime
  event_status :: string

record geoLocation =
  address :: string
  lat :: real
  lng :: real

type_synonym travelTimes = "((nat \<times> nat) \<times> int) list"

datatype travelEstimate = TravelTimes travelTimes | Minutes int

record routeStop =
  stop_location :: "geoLocation option"
  startTime :: instant
  endTime :: instant

record route =
  startLocation :: "geoLocation option"
  appointments :: "routeStop list"
  totalTravelTime :: int

record routeAnalysis =
  availableTimeSlots :: "slot list"
  suggestedAlternatives :: "timePreference list"
  estimatedTravelTime :: travelEstimate

text \<open>A thrown \<open>Error\<close>, with its message.\<close>

datatype error = Error string

text \<open>
  What the services take from outside the process: the Google client and its
  \<open>calendar.events.list\<close>, each of which either throws (\<open>Inl\<close>) or returns; the values
  that \<open>Math.random()\<close> returns, in the order of the draws; and the clock (\<open>moment()\<close>,
  \<open>Date.now()\<close>).
\<close>

record collaborators =
  getClient :: "error + unit"
  events_list :: "instant \<Rightarrow> instant \<Rightarrow> error + calendarEvent list"
  mathRandom :: "nat \<Rightarrow> real"
  now :: instant

section \<open>calendarService\<close>

definition SERVICE_DURATIONS :: "(string \<times> int) list" where
  "SERVICE_DURATIONS =
     [(''cleaning'', 120), (''repair'', 90), (''plumbing'', 60), (''electrical'', 60),
      (''landscaping'', 180)]"

definition DEFAULT_DURATION :: int where
  "DEFAULT_DURATION = 60"

record businessHours =
  bh_start :: int
  bh_end :: int

definition BUSINESS_HOURS :: businessHours where
  "BUSINESS_HOURS = \<lparr>bh_start = 9, bh_end = 17\<rparr>"

subsection \<open>getAppointmentsForDay\<close>

definition toAppointment :: "calendarEvent \<Rightarrow> appointment" where
  "toAppointment event =
     \<lparr>start = dateTime (event_start event), end' = dateTime (event_end event),
      id = event_id event, summary = event_summary event,
      location = event_location event, status = event_status event\<rparr>"

text \<open>
  Everything is inside one \<open>try\<close>; its \<open>catch\<close> logs and returns \<open>[]\<close>
  (``For development/demo purposes, return mock data if calendar API fails'').
\<close>

definition getAppointmentsForDay :: "collaborators \<Rightarrow> instant \<Rightarrow> appointment list" where
  "getAppointmentsForDay env d =
     (case getClient env of
        Inl err \<Rightarrow> []
      | Inr client \<Rightarrow>
          (case events_list env (startOfDay d) (endOfDay d) of
             Inl err \<Rightarrow> []
           | Inr items \<Rightarrow> map toAppointment items))"

subsection \<open>findBestTimeSlot\<close>

text \<open>The \<open>for \<dots> of\<close> loop over the preferences, with its early \<open>return\<close>.\<close>

fun firstPreferred :: "timePreference list \<Rightarrow> slot list \<Rightarrow> timePreference option" where
  "firstPreferred [] slots = None"
| "firstPreferred (preference # rest) slots =
     (if list_ex (\<lambda>slot. isBetween (preferredDateTime preference) (start slot) (end' slot)) slots
      then Some preference
      else firstPreferred rest slots)"

text \<open>\<open>null\<close> is \<open>None\<close>. Nothing in the \<open>try\<close> throws on values of these types.\<close>

definition findBestTimeSlot :: "timePreference list \<Rightarrow> routeAnalysis \<Rightarrow> timePreference option" where
  "findBestTimeSlot timePreferences analysis =
     (case firstPreferred timePreferences (availableTimeSlots analysis) of
        Some preference \<Rightarrow> Some preference
      | None \<Rightarrow>
          (case availableTimeSlots analysis of
             firstAvailable # others \<Rightarrow>
               Some \<lparr>date = formatDate (start firstAvailable),
                     time = formatTime (start firstAvailable)\<rparr>
           | [] \<Rightarrow> None))"

subsection \<open>createAppointment\<close>

record appointmentData =
  data_name :: string
  data_address :: string
  data_service :: string
  data_date :: int
  data_time :: int
  data_notes :: string

text \<open>\<open>service.charAt(0).toUpperCase() + service.slice(1)\<close>, on ASCII letters.\<close>

definition toUpperCase :: "char \<Rightarrow> char" where
  "toUpperCase c =
     (if 97 \<le> (of_char c :: nat) \<and> (of_char c :: nat) \<le> 122
      then char_of ((of_char c :: nat) - 32) else c)"

definition capitalize :: "string \<Rightarrow> string" where
  "capitalize s = (case s of [] \<Rightarrow> [] | c # cs \<Rightarrow> toUpperCase c # cs)"

text \<open>The decimal notation of \<open>Date.now()\<close> in the mock id.\<close>

definition digit :: "nat \<Rightarrow> char" where
  "digit n = char_of (48 + n)"

fun decimal :: "nat \<Rightarrow> string" where
  "decimal n = (if n < 10 then [digit n] else decimal (n div 10) @ [digit (n mod 10)])"

declare decimal.simps [simp del]

definition numberToString :: "int \<Rightarrow> string" where
  "numberToString n = (if n < 0 then ''-'' @ decimal (nat (- n)) else decimal (nat n))"

text \<open>
  \<open>SERVICE_DURATIONS[service] || DEFAULT_DURATION\<close>, for a service that is a key of the
  table or no property of the object at all. A service named after a property that every
  object inherits (\<open>constructor\<close>, \<open>toString\<close>, \<dots>) reads a function there, and what
  moment adds for it is not modelled: the end of the created appointment is then outside
  this model. No property below reads the duration.
\<close>

definition durationOf :: "string \<Rightarrow> int" where
  "durationOf service =
     (case map_of SERVICE_DURATIONS service of Some m \<Rightarrow> m | None \<Rightarrow> DEFAULT_DURATION)"

text \<open>
  The insertion into the calendar is commented out in the source (``For
  development/demo purposes, skip actual calendar creation''): the function builds the
  event and returns it with a mock id. Obtaining the client can still throw, and the
  \<open>catch\<close> rethrows.
\<close>

definition createAppointment :: "collaborators \<Rightarrow> appointmentData \<Rightarrow> error + createdAppointment" where
  "createAppointment env appointmentData =
     (let durationMinutes = durationOf (data_service appointmentData);
          startDateTime = momentOfDate (data_date appointmentData) + data_time appointmentData;
          endDateTime = startDateTime + durationMinutes * MINUTE
      in case getClient env of
           Inl err \<Rightarrow> Inl (Error ''Failed to create appointment'')
         | Inr client \<Rightarrow>
             Inr \<lparr>start = startDateTime, end' = endDateTime,
                  id = ''appointment-'' @ numberToString (now env),
                  summary = capitalize (data_service appointmentData) @ '' - '' @
                            data_name appointmentData,
                  location = data_address appointmentData,
                  status = ''confirmed'',
                  notes' = data_notes appointmentData\<rparr>)"

subsection \<open>getAvailableTimeSlots\<close>

text \<open>
  The test of the inner loop,
  \<open>appointmentStart.isBefore(slotEnd) && appointmentEnd.isAfter(slotStart)\<close>.
\<close>

definition overlaps :: "'a slot_scheme \<Rightarrow> slot \<Rightarrow> bool" where
  "overlaps a s = (start a < end' s \<and> end' a > start s)"

text \<open>The two conditional \<open>push\<close> calls of the loop body, in their order.\<close>

definition pushed :: "'a slot_scheme \<Rightarrow> slot \<Rightarrow> slot list" where
  "pushed a s =
     (if start a > start s then [\<lparr>start = start s, end' = start a\<rparr>] else []) @
     (if end' a < end' s then [\<lparr>start = end' a, end' = end' s\<rparr>] else [])"

text \<open>\<open>availableSlots.splice(i, 1)\<close>\<close>

definition splice1 :: "nat \<Rightarrow> 'b list \<Rightarrow> 'b list" where
  "splice1 i xs = take i xs @ drop (Suc i) xs"

text \<open>
  The inner \<open>for (let i = 0; i < availableSlots.length; i++)\<close> loop, on the array it
  mutates: an overlapping slot is removed at index \<open>i\<close>, its remainders are appended at
  the end of the array, and the index stays where it is (\<open>i--\<close> then \<open>i++\<close>).
\<close>

function slotLoop :: "'a slot_scheme \<Rightarrow> nat \<Rightarrow> slot list \<Rightarrow> slot list" where
  "slotLoop a i availableSlots =
     (if i < length availableSlots then
        (if overlaps a (availableSlots ! i)
         then slotLoop a i (splice1 i availableSlots @ pushed a (availableSlots ! i))
         else slotLoop a (Suc i) availableSlots)
      else availableSlots)"
  by pat_completeness auto

text \<open>
  The loop ends: what it appends never overlaps the appointment again, so each round
  either removes one overlapping slot from the part of the array still to visit, or moves
  on by one.
\<close>

termination slotLoop
proof (relation "measures [\<lambda>(a, i, xs). length (filter (overlaps a) (drop i xs)),
                           \<lambda>(a, i, xs). length xs - i]", goal_cases)
  case 1
  show ?case by simp
next
  case (2 a i xs)
  then have less: "i < length xs"
    by simp
  have "filter (overlaps a) (pushed a (xs ! i)) = []"
    by (auto simp: filter_empty_conv pushed_def overlaps_def split: if_splits)
  moreover have "drop i xs = xs ! i # drop (Suc i) xs"
    using less by (simp add: Cons_nth_drop_Suc)
  moreover have "drop i (splice1 i xs @ pushed a (xs ! i)) = drop (Suc i) xs @ pushed a (xs ! i)"
    using less by (simp add: splice1_def)
  ultimately show ?case
    using 2 by (simp del: drop_append)
next
  case (3 a i xs)
  then have "drop i xs = xs ! i # drop (Suc i) xs"
    by (simp add: Cons_nth_drop_Suc)
  with 3 show ?case by simp
qed

declare slotLoop.simps [simp del]

text \<open>
  \<open>getAvailableTimeSlots(date, existingAppointments)\<close>: the outer loop runs the inner
  loop once for each appointment, from the single slot of the business hours of the day.
  Nothing in the \<open>try\<close> throws on values of these types.
\<close>

definition dayStart :: "instant \<Rightarrow> instant" where
  "dayStart d = atHour d (bh_start BUSINESS_HOURS)"

definition dayEnd :: "instant \<Rightarrow> instant" where
  "dayEnd d = atHour d (bh_end BUSINESS_HOURS)"

definition getAvailableTimeSlots :: "instant \<Rightarrow> 'a slot_scheme list \<Rightarrow> slot list" where
  "getAvailableTimeSlots d existingAppointments =
     fold (\<lambda>appointment availableSlots. slotLoop appointment 0 availableSlots)
       existingAppointments
       [\<lparr>start = dayStart d, end' = dayEnd d\<rparr>]"

section \<open>routeService\<close>

definition OFFICE_LOCATION :: string where
  "OFFICE_LOCATION = ''123 Main St, Anytown, USA''"

text \<open>\<open>xs[i]\<close>, which is \<open>undefined\<close> (\<open>None\<close>) out of range.\<close>

definition elementAt :: "'b list \<Rightarrow> nat \<Rightarrow> 'b option" where
  "elementAt xs i = (if i < length xs then Some (xs ! i) else None)"

text \<open>
  \<open>getGeocodedLocations\<close> and \<open>calculateTravelTimes\<close>, over the values that
  \<open>Math.random()\<close> returns (\<open>draw k\<close> is the \<open>k\<close>-th value drawn by the function): mock
  coordinates for each address, latitude before longitude, and a travel time of
  \<open>Math.floor(Math.random() * 45) + 15\<close> minutes for each ordered pair of distinct
  indices, row by row. Nothing in their \<open>try\<close> throws on values of these types, so each
  returns (\<open>Inr\<close>); the \<open>catch\<close> that rethrows has nothing to catch.
\<close>

definition getGeocodedLocations :: "(nat \<Rightarrow> real) \<Rightarrow> string list \<Rightarrow> error + geoLocation list" where
  "getGeocodedLocations draw addresses =
     Inr (map (\<lambda>(a, k). \<lparr>address = a, lat = draw (2 * k) * 0.1 + 40.7,
                         lng = draw (2 * k + 1) * 0.1 - 74.0\<rparr>)
            (zip addresses [0 ..< length addresses]))"

definition calculateTravelTimes :: "(nat \<Rightarrow> real) \<Rightarrow> geoLocation list \<Rightarrow> error + travelTimes" where
  "calculateTravelTimes draw locations =
     Inr (concat (map (\<lambda>i. concat (map (\<lambda>j.
            if i \<noteq> j
            then [((i, j),
                   \<lfloor>draw (i * (length locations - 1) + (if j < i then j else j - 1)) * 45\<rfloor>
                     + 15)]
            else []) [0 ..< length locations])) [0 ..< length locations]))"

definition optimizeRoute :: "geoLocation option \<Rightarrow> routeStop list \<Rightarrow> route" where
  "optimizeRoute origin stops =
     \<lparr>startLocation = origin, appointments = sort_key startTime stops, totalTravelTime = 0\<rparr>"

text \<open>
  The demo body: a morning and an afternoon slot on each of the next seven days; the
  route, the new location and the travel times are not read.
\<close>

definition slotsOfDay :: "instant \<Rightarrow> int \<Rightarrow> slot list" where
  "slotsOfDay today day =
     [\<lparr>start = atHour (today + day * DAY) 9, end' = atHour (today + day * DAY) 12\<rparr>,
      \<lparr>start = atHour (today + day * DAY) 14, end' = atHour (today + day * DAY) 17\<rparr>]"

definition findAvailableTimeSlots ::
  "instant \<Rightarrow> route \<Rightarrow> geoLocation option \<Rightarrow> travelTimes \<Rightarrow> slot list" where
  "findAvailableTimeSlots clock existingRoute newLocation travelTimes =
     concat (map (slotsOfDay (startOfDay clock)) [1, 2, 3, 4, 5, 6, 7])"

definition generateAlternatives :: "slot list \<Rightarrow> timePreference list" where
  "generateAlternatives slots =
     map (\<lambda>slot. \<lparr>date = formatDate (start slot), time = formatTime (start slot)\<rparr>)
       (take 5 slots)"

text \<open>The object returned by the \<open>catch\<close> of \<open>analyzeRoute\<close> (``For demo purposes, return mock data'').\<close>

definition mockAnalysis :: "instant \<Rightarrow> routeAnalysis" where
  "mockAnalysis clock =
     \<lparr>availableTimeSlots =
        [\<lparr>start = atHour (clock + DAY) 9, end' = atHour (clock + DAY) 12\<rparr>,
         \<lparr>start = atHour (clock + DAY) 14, end' = atHour (clock + DAY) 17\<rparr>],
      suggestedAlternatives =
        [\<lparr>date = formatDate (clock + DAY), time = 9 * HOUR\<rparr>,
         \<lparr>date = formatDate (clock + DAY), time = 14 * HOUR\<rparr>],
      estimatedTravelTime = Minutes 30\<rparr>"

text \<open>
  \<open>analyzeRoute\<close>, with its \<open>catch\<close> as the branch of a helper that throws. The travel
  times are drawn after the two coordinates of each address.
\<close>

definition analyzeRoute :: "collaborators \<Rightarrow> string \<Rightarrow> appointment list \<Rightarrow> routeAnalysis" where
  "analyzeRoute env newAppointmentAddress existingAppointments =
     (let addresses =
            OFFICE_LOCATION # newAppointmentAddress # map location existingAppointments
      in case getGeocodedLocations (mathRandom env) addresses of
           Inl err \<Rightarrow> mockAnalysis (now env)
         | Inr locations \<Rightarrow>
             (case calculateTravelTimes (\<lambda>k. mathRandom env (2 * length addresses + k))
                     locations of
                Inl err \<Rightarrow> mockAnalysis (now env)
              | Inr travelTimes \<Rightarrow>
                  (let existingRoute =
                         optimizeRoute (elementAt locations 0)
                           (map (\<lambda>(appointment, index).
                                   \<lparr>stop_location = elementAt locations (index + 2),
                                    startTime = start appointment,
                                    endTime = end' appointment\<rparr>)
                              (zip existingAppointments
                                 [0 ..< length existingAppointments]));
                       slots = findAvailableTimeSlots (now env) existingRoute
                                 (elementAt locations 1) travelTimes
                   in \<lparr>availableTimeSlots = slots,
                       suggestedAlternatives = generateAlternatives slots,
                       estimatedTravelTime = TravelTimes travelTimes\<rparr>)))"

section \<open>appointmentController.bookAppointment\<close>

text \<open>
  \<open>req.body\<close>: a field that is absent is \<open>None\<close>; an absent field and an empty string
  are the falsy values of the guard.
\<close>

record bookingRequest =
  body_name :: "string option"
  body_address :: "string option"
  body_service :: "string option"
  body_date :: "int option"
  body_time :: "int option"
  body_notes :: "string option"
  body_alt_date :: "int option"
  body_alt_time :: "int option"

definition falsy :: "string option \<Rightarrow> bool" where
  "falsy v = (case v of None \<Rightarrow> True | Some s \<Rightarrow> s = [])"

text \<open>The guard \<open>!name || !address || !service || !date || !time\<close>.\<close>

definition requiredMissing :: "bookingRequest \<Rightarrow> bool" where
  "requiredMissing req =
     (falsy (body_name req) \<or> falsy (body_address req) \<or> falsy (body_service req) \<or>
      body_date req = None \<or> body_time req = None)"

datatype responseBody =
    ErrorBody string
  | NoSlotBody string "timePreference list"
  | AppointmentBody createdAppointment

record response =
  statusCode :: nat
  body :: responseBody

text \<open>The calls that the controller makes to the services, in the order it makes them.\<close>

datatype serviceCall =
    GetAppointmentsForDay instant
  | AnalyzeRoute string "appointment list"
  | FindBestTimeSlot "timePreference list" routeAnalysis
  | CreateAppointment appointmentData

definition bookAppointment :: "collaborators \<Rightarrow> bookingRequest \<Rightarrow> response \<times> serviceCall list" where
  "bookAppointment env req =
     (if requiredMissing req
      then (\<lparr>statusCode = 400, body = ErrorBody ''Missing required fields''\<rparr>, [])
      else
        (let d = the (body_date req);
             t = the (body_time req);
             timePreferences =
               [\<lparr>date = d, time = t\<rparr>] @
               (case (body_alt_date req, body_alt_time req) of
                  (Some altDate, Some altTime) \<Rightarrow> [\<lparr>date = altDate, time = altTime\<rparr>]
                | _ \<Rightarrow> []);
             existingAppointments = getAppointmentsForDay env (momentOfDate d);
             analysis = analyzeRoute env (the (body_address req)) existingAppointments;
             calls = [GetAppointmentsForDay (momentOfDate d),
                      AnalyzeRoute (the (body_address req)) existingAppointments,
                      FindBestTimeSlot timePreferences analysis]
         in case findBestTimeSlot timePreferences analysis of
              None \<Rightarrow>
                (\<lparr>statusCode = 409,
                  body = NoSlotBody ''No suitable time slot available''
                           (suggestedAlternatives analysis)\<rparr>, calls)
            | Some bestTimeSlot \<Rightarrow>
                (let appointmentData =
                       \<lparr>data_name = the (body_name req),
                        data_address = the (body_address req),
                        data_service = the (body_service req),
                        data_date = date bestTimeSlot,
                        data_time = time bestTimeSlot,
                        data_notes = (case body_notes req of Some n \<Rightarrow> n | None \<Rightarrow> [])\<rparr>
                 in case createAppointment env appointmentData of
                      Inl err \<Rightarrow>
                        (\<lparr>statusCode = 500, body = ErrorBody ''Failed to book appointment''\<rparr>,
                         calls @ [CreateAppointment appointmentData])
                    | Inr appointment \<Rightarrow>
                        (\<lparr>statusCode = 201, body = AppointmentBody appointment\<rparr>,
                         calls @ [CreateAppointment appointmentData]))))"

section \<open>Notions used in the properties\<close>

text \<open>The instants of a half-open interval, and those of a list of slots.\<close>

definition span :: "'a slot_scheme \<Rightarrow> int set" where
  "span s = {start s ..< end' s}"

definition covered :: "slot list \<Rightarrow> int set" where
  "covered xs = (\<Union>s\<in>set xs. span s)"

text \<open>Two slots that do not overlap; a slot that ends before the next one starts.\<close>

definition apart :: "slot \<Rightarrow> slot \<Rightarrow> bool" where
  "apart s t = (end' s \<le> start t \<or> end' t \<le> start s)"

definition chain :: "slot \<Rightarrow> slot \<Rightarrow> bool" where
  "chain s t = (end' s \<le> start t)"

text \<open>What one round of the inner loop leaves of one slot.\<close>

definition subtractSlot :: "'a slot_scheme \<Rightarrow> slot \<Rightarrow> slot list" where
  "subtractSlot a s = (if overlaps a s then pushed a s else [s])"

text \<open>
  The shape of the array while appointments arrive in the order of their starts: the
  slots follow one another, none is empty, and all but the last end by \<open>M\<close>, a bound
  under the starts of the appointments still to come.
\<close>

definition tidy :: "int \<Rightarrow> slot list \<Rightarrow> bool" where
  "tidy M xs =
     (sorted_wrt chain xs \<and> (\<forall>s\<in>set xs. start s < end' s) \<and>
      (\<forall>s\<in>set (butlast xs). end' s \<le> M))"

text \<open>A preference whose instant lies in one of the slots, as the resolver tests it.\<close>

definition inWindow :: "timePreference \<Rightarrow> slot list \<Rightarrow> bool" where
  "inWindow p slots =
     (\<exists>slot\<in>set slots. start slot \<le> preferredDateTime p \<and> preferredDateTime p < end' slot)"

text \<open>The calendar cannot be read for the day.\<close>

definition storeUnreachable :: "collaborators \<Rightarrow> instant \<Rightarrow> bool" where
  "storeUnreachable env d =
     (isl (getClient env) \<or> isl (events_list env (startOfDay d) (endOfDay d)))"

text \<open>The windows of the demo body of \<open>findAvailableTimeSlots\<close> at a clock.\<close>

definition nextSevenDays :: "instant \<Rightarrow> slot list" where
  "nextSevenDays clock = concat (map (slotsOfDay (startOfDay clock)) [1, 2, 3, 4, 5, 6, 7])"

subsection \<open>Sample values\<close>

text \<open>A calendar with no event; the same with a calendar that cannot be listed.\<close>

definition workingEnv :: collaborators where
  "workingEnv =
     \<lparr>getClient = Inr (),
      events_list = (\<lambda>timeMin timeMax. Inr []),
      mathRandom = (\<lambda>k. 0),
      now = 0\<rparr>"

definition unreachableEnv :: collaborators where
  "unreachableEnv =
     workingEnv\<lparr>events_list := (\<lambda>timeMin timeMax. Inl (Error ''ECONNREFUSED''))\<rparr>"

definition completeRequest :: bookingRequest where
  "completeRequest =
     \<lparr>body_name = Some ''Ada'', body_address = Some ''1 Elm St'',
      body_service = Some ''repair'', body_date = Some 2, body_time = Some (10 * HOUR),
      body_notes = None, body_alt_date = None, body_alt_time = None\<rparr>"

definition between :: "int \<Rightarrow> int \<Rightarrow> slot" where
  "between from to = \<lparr>start = from, end' = to\<rparr>"

definition windows :: "slot list \<Rightarrow> routeAnalysis" where
  "windows slots =
     \<lparr>availableTimeSlots = slots, suggestedAlternatives = [],
      estimatedTravelTime = Minutes 30\<rparr>"

section \<open>The inner loop as a list expression\<close>

lemma pushed_not_overlaps: "t \<in> set (pushed a s) \<Longrightarrow> \<not> overlaps a t"
  by (auto simp: pushed_def overlaps_def split: if_splits)

lemma filter_pushed_Nil: "filter (overlaps a) (pushed a s) = []"
  by (auto simp: filter_empty_conv dest: pushed_not_overlaps)

lemma drop_splice1_pushed:
  "i < length xs \<Longrightarrow> drop i (splice1 i xs @ ys) = drop (Suc i) xs @ ys"
  by (simp add: splice1_def)

text \<open>
  From index \<open>i\<close> on, the loop keeps the slots that do not overlap the appointment, in
  their order, and puts after them the remainders of those that do.
\<close>

lemma slotLoop_eq:
  "slotLoop a i xs =
     take i xs @ filter (\<lambda>s. \<not> overlaps a s) (drop i xs) @
     concat (map (pushed a) (filter (overlaps a) (drop i xs)))"
proof (induction a i xs rule: slotLoop.induct)
  case (1 a i xs)
  show ?case
  proof (cases "i < length xs")
    case False
    then show ?thesis by (subst slotLoop.simps) simp
  next
    case less: True
    then have d: "drop i xs = xs ! i # drop (Suc i) xs"
      by (simp add: Cons_nth_drop_Suc)
    show ?thesis
    proof (cases "overlaps a (xs ! i)")
      case True
      have d2: "drop i (splice1 i xs @ pushed a (xs ! i)) = drop (Suc i) xs @ pushed a (xs ! i)"
        using less by (rule drop_splice1_pushed)
      have t2: "take i (splice1 i xs @ pushed a (xs ! i)) = take i xs"
        using less by (simp add: splice1_def)
      have np: "filter (\<lambda>s. \<not> overlaps a s) (pushed a (xs ! i)) = pushed a (xs ! i)"
        by (auto simp: filter_id_conv dest: pushed_not_overlaps)
      have "slotLoop a i xs = slotLoop a i (splice1 i xs @ pushed a (xs ! i))"
        using less True by (subst slotLoop.simps) simp
      also have "\<dots> =
          take i xs @ filter (\<lambda>s. \<not> overlaps a s) (drop (Suc i) xs) @ pushed a (xs ! i) @
          concat (map (pushed a) (filter (overlaps a) (drop (Suc i) xs)))"
        using "1.IH"(1)[OF less True]
        by (simp only: d2 t2 filter_append filter_pushed_Nil np append_Nil2 append_assoc)
      finally show ?thesis using True by (simp add: d)
    next
      case False
      have "slotLoop a i xs = slotLoop a (Suc i) xs"
        using less False by (subst slotLoop.simps) simp
      then show ?thesis
        using "1.IH"(2)[OF less False] False less by (simp add: d take_Suc_conv_app_nth)
    qed
  qed
qed

lemma slotLoop_0:
  "slotLoop a 0 xs =
     filter (\<lambda>s. \<not> overlaps a s) xs @ concat (map (pushed a) (filter (overlaps a) xs))"
  by (simp add: slotLoop_eq)

lemma set_slotLoop: "set (slotLoop a 0 xs) = (\<Union>s\<in>set xs. set (subtractSlot a s))"
  by (auto simp: slotLoop_0 subtractSlot_def split: if_splits)

lemma slotLoop_last:
  assumes "\<forall>s\<in>set ys. \<not> overlaps a s"
  shows "slotLoop a 0 (ys @ [l]) = ys @ subtractSlot a l"
proof -
  have "filter (overlaps a) ys = []" "filter (\<lambda>s. \<not> overlaps a s) ys = ys"
    using assms by (auto simp: filter_empty_conv filter_id_conv)
  then show ?thesis
    by (simp add: slotLoop_0 subtractSlot_def)
qed

lemma slotLoop_single: "slotLoop a 0 [s] = subtractSlot a s"
  using slotLoop_last [of "[]" a s] by simp

section \<open>One appointment against the array of slots\<close>

lemma pushed_within:
  "overlaps a s \<Longrightarrow> t \<in> set (pushed a s) \<Longrightarrow> start s \<le> start t \<and> end' t \<le> end' s \<and> start t < end' t"
  by (auto simp: pushed_def overlaps_def split: if_splits)

lemma pushed_apart:
  "start a \<le> end' a \<Longrightarrow> sorted_wrt apart (pushed a s)"
  by (auto simp: pushed_def apart_def)

lemma apart_within:
  "apart s u \<Longrightarrow> start u \<le> start t \<Longrightarrow> end' t \<le> end' u \<Longrightarrow> start t < end' t \<Longrightarrow> apart s t"
  by (auto simp: apart_def)

lemma apart_sym: "apart s t \<Longrightarrow> apart t s"
  by (auto simp: apart_def)

lemma sorted_wrt_apart_neq:
  "sorted_wrt apart xs \<Longrightarrow> x \<in> set xs \<Longrightarrow> y \<in> set xs \<Longrightarrow> x \<noteq> y \<Longrightarrow> apart x y"
  by (induction xs) (auto dest: apart_sym)

lemma apart_concat_pushed:
  assumes "start a \<le> end' a"
  shows "sorted_wrt apart ys \<Longrightarrow> \<forall>s\<in>set ys. overlaps a s \<Longrightarrow>
    sorted_wrt apart (concat (map (pushed a) ys))"
proof (induction ys)
  case Nil
  show ?case by simp
next
  case (Cons y ys)
  have "apart t t'" if "t \<in> set (pushed a y)" "u \<in> set ys" "t' \<in> set (pushed a u)" for t t' u
  proof -
    from Cons.prems that have "apart y u" "overlaps a y" "overlaps a u" by auto
    with that pushed_within[of a y t] pushed_within[of a u t'] show ?thesis
      by (meson apart_within apart_sym)
  qed
  with Cons assms show ?case
    by (auto simp: sorted_wrt_append pushed_apart)
qed

lemma slotLoop_apart:
  assumes a: "start a \<le> end' a" and xs: "sorted_wrt apart xs"
  shows "sorted_wrt apart (slotLoop a 0 xs)"
proof -
  have 1: "sorted_wrt apart (filter (\<lambda>s. \<not> overlaps a s) xs)"
    using xs by (rule sorted_wrt_filter)
  have "sorted_wrt apart (filter (overlaps a) xs)"
    using xs by (rule sorted_wrt_filter)
  then have 2: "sorted_wrt apart (concat (map (pushed a) (filter (overlaps a) xs)))"
    using a by (intro apart_concat_pushed) simp_all
  have 3: "apart s t" if "s \<in> set xs" "\<not> overlaps a s" "u \<in> set xs" "overlaps a u" "t \<in> set (pushed a u)" for s t u
  proof -
    from that have "s \<noteq> u" by auto
    with xs that have "apart s u" by (auto intro: sorted_wrt_apart_neq)
    with that pushed_within[of a u t] show ?thesis by (auto intro: apart_within)
  qed
  show ?thesis
    unfolding slotLoop_0 sorted_wrt_append using 1 2 3 by auto
qed

lemma slotLoop_wf:
  "\<forall>s\<in>set xs. start s < end' s \<Longrightarrow> \<forall>s\<in>set (slotLoop a 0 xs). start s < end' s"
  by (auto simp: slotLoop_0 dest: pushed_within)

lemma span_pushed:
  "start a \<le> end' a \<Longrightarrow> overlaps a s \<Longrightarrow> (\<Union>t\<in>set (pushed a s). span t) = span s - span a"
  by (auto simp: pushed_def overlaps_def span_def split: if_splits)

lemma span_not_overlaps:
  "\<not> overlaps a s \<Longrightarrow> span s - span a = span s"
  by (auto simp: overlaps_def span_def)

lemma covered_slotLoop:
  assumes "start a \<le> end' a"
  shows "covered (slotLoop a 0 xs) = covered xs - span a"
proof -
  have "covered (slotLoop a 0 xs) = (\<Union>s\<in>{s \<in> set xs. \<not> overlaps a s}. span s) \<union> (\<Union>s\<in>{s \<in> set xs. overlaps a s}. \<Union>t\<in>set (pushed a s). span t)"
    by (auto simp: covered_def slotLoop_0)
  also have "\<dots> = (\<Union>s\<in>{s \<in> set xs. \<not> overlaps a s}. span s - span a) \<union> (\<Union>s\<in>{s \<in> set xs. overlaps a s}. span s - span a)"
    using assms by (simp add: span_pushed span_not_overlaps)
  also have "\<dots> = covered xs - span a"
    by (auto simp: covered_def)
  finally show ?thesis .
qed

lemma subtractSlot_commute:
  assumes "start a \<le> end' a" "start b \<le> end' b"
  shows "(\<Union>t\<in>set (subtractSlot b s). set (subtractSlot a t)) = (\<Union>t\<in>set (subtractSlot a s). set (subtractSlot b t))"
  using assms by (cases s) (auto simp: subtractSlot_def pushed_def overlaps_def split: if_splits)


section \<open>All appointments of the day\<close>

lemma dayStart_less_dayEnd: "dayStart d < dayEnd d"
  by (simp add: dayStart_def dayEnd_def atHour_def BUSINESS_HOURS_def HOUR_def)

lemma fold_apart:
  "\<forall>a\<in>set as. start a \<le> end' a \<Longrightarrow> sorted_wrt apart xs \<Longrightarrow>
   sorted_wrt apart (fold (\<lambda>a xs. slotLoop a 0 xs) as xs)"
  by (induction as arbitrary: xs) (simp_all add: slotLoop_apart)

lemma fold_wf:
  "\<forall>s\<in>set xs. start s < end' s \<Longrightarrow>
   \<forall>s\<in>set (fold (\<lambda>a xs. slotLoop a 0 xs) as xs). start s < end' s"
proof (induction as arbitrary: xs)
  case Nil
  then show ?case by simp
next
  case (Cons a as)
  from Cons.prems have "\<forall>s\<in>set (slotLoop a 0 xs). start s < end' s"
    by (rule slotLoop_wf)
  then show ?case using Cons.IH by simp
qed

lemma fold_covered:
  "\<forall>a\<in>set as. start a \<le> end' a \<Longrightarrow>
   covered (fold (\<lambda>a xs. slotLoop a 0 xs) as xs) = covered xs - (\<Union>a\<in>set as. span a)"
  by (induction as arbitrary: xs) (auto simp: covered_slotLoop)

lemma available_apart:
  "\<forall>a\<in>set as. start a \<le> end' a \<Longrightarrow> sorted_wrt apart (getAvailableTimeSlots d as)"
  unfolding getAvailableTimeSlots_def by (rule fold_apart) simp_all

lemma available_wf: "\<forall>s\<in>set (getAvailableTimeSlots d as). start s < end' s"
  unfolding getAvailableTimeSlots_def by (rule fold_wf) (simp add: dayStart_less_dayEnd)

lemma available_covered:
  "\<forall>a\<in>set as. start a \<le> end' a \<Longrightarrow>
   covered (getAvailableTimeSlots d as) = {dayStart d ..< dayEnd d} - (\<Union>a\<in>set as. span a)"
  unfolding getAvailableTimeSlots_def by (subst fold_covered) (simp_all add: covered_def span_def)

lemma apart_disjoint: "apart s t \<Longrightarrow> span s \<inter> span t = {}"
  by (auto simp: apart_def span_def)

lemma set_fold_slotLoop:
  "set (fold (\<lambda>a xs. slotLoop a 0 xs) as xs) =
   fold (\<lambda>a S. \<Union>s\<in>S. set (subtractSlot a s)) as (set xs)"
  by (induction as arbitrary: xs) (simp_all add: set_slotLoop)

lemma subtract_sets_commute:
  assumes "start a \<le> end' a" "start b \<le> end' b"
  shows "(\<lambda>S. \<Union>s\<in>S. set (subtractSlot a s)) \<circ> (\<lambda>S. \<Union>s\<in>S. set (subtractSlot b s)) =
         (\<lambda>S. \<Union>s\<in>S. set (subtractSlot b s)) \<circ> (\<lambda>S. \<Union>s\<in>S. set (subtractSlot a s))"
proof (rule ext)
  fix S
  have "(\<Union>s\<in>S. \<Union>t\<in>set (subtractSlot b s). set (subtractSlot a t)) =
        (\<Union>s\<in>S. \<Union>t\<in>set (subtractSlot a s). set (subtractSlot b t))"
    using subtractSlot_commute[OF assms] by simp
  then show "((\<lambda>S. \<Union>s\<in>S. set (subtractSlot a s)) \<circ> (\<lambda>S. \<Union>s\<in>S. set (subtractSlot b s))) S =
         ((\<lambda>S. \<Union>s\<in>S. set (subtractSlot b s)) \<circ> (\<lambda>S. \<Union>s\<in>S. set (subtractSlot a s))) S"
    by simp
qed

section \<open>Appointments in the order of their starts\<close>

lemma subtractSlot_within:
  "t \<in> set (subtractSlot a l) \<Longrightarrow> start l < end' l \<Longrightarrow>
   start l \<le> start t \<and> end' t \<le> end' l \<and> start t < end' t"
  by (auto simp: subtractSlot_def dest: pushed_within split: if_splits)

lemma subtractSlot_chain:
  "start a \<le> end' a \<Longrightarrow> sorted_wrt chain (subtractSlot a l)"
  by (auto simp: subtractSlot_def pushed_def chain_def)

lemma subtractSlot_butlast:
  "s \<in> set (butlast (subtractSlot a l)) \<Longrightarrow> end' s \<le> start a"
  by (auto simp: subtractSlot_def pushed_def split: if_splits)

lemma slotLoop_tidy:
  assumes "tidy M xs" "M \<le> start a" "start a \<le> end' a"
  shows "tidy (start a) (slotLoop a 0 xs)"
proof (cases xs rule: rev_cases)
  case Nil
  then show ?thesis by (simp add: slotLoop_0 tidy_def)
next
  case (snoc ys l)
  with assms have ys: "sorted_wrt chain ys" "\<forall>s\<in>set ys. start s < end' s"
    "\<forall>s\<in>set ys. end' s \<le> M" "\<forall>s\<in>set ys. end' s \<le> start l" "start l < end' l"
    by (auto simp: tidy_def sorted_wrt_append chain_def)
  then have "\<forall>s\<in>set ys. \<not> overlaps a s"
    using assms(2) by (auto simp: overlaps_def)
  then have eq: "slotLoop a 0 xs = ys @ subtractSlot a l"
    unfolding snoc by (rule slotLoop_last)
  have 1: "sorted_wrt chain (ys @ subtractSlot a l)"
    using ys assms(3) subtractSlot_within[of _ a l]
    by (fastforce simp: sorted_wrt_append subtractSlot_chain chain_def)
  have 2: "\<forall>s\<in>set (ys @ subtractSlot a l). start s < end' s"
    using ys subtractSlot_within[of _ a l] by auto
  have 3: "\<forall>s\<in>set (butlast (ys @ subtractSlot a l)). end' s \<le> start a"
  proof (cases "subtractSlot a l = []")
    case True
    then show ?thesis
      using ys(3) assms(2) by (fastforce dest: in_set_butlastD)
  next
    case False
    then show ?thesis
      using ys(3) assms(2) subtractSlot_butlast[of _ a l]
      by (fastforce simp: butlast_append)
  qed
  show ?thesis
    unfolding eq tidy_def using 1 2 3 by simp
qed

lemma fold_tidy:
  "tidy M xs \<Longrightarrow> sorted (map start as) \<Longrightarrow> \<forall>a\<in>set as. M \<le> start a \<and> start a \<le> end' a \<Longrightarrow>
   \<exists>M'. tidy M' (fold (\<lambda>a xs. slotLoop a 0 xs) as xs)"
proof (induction as arbitrary: xs M)
  case Nil
  then show ?case by auto
next
  case (Cons a as)
  then have "tidy (start a) (slotLoop a 0 xs)"
    by (intro slotLoop_tidy[of M]) auto
  moreover have "sorted (map start as)" "\<forall>b\<in>set as. start a \<le> start b \<and> start b \<le> end' b"
    using Cons.prems by auto
  ultimately show ?case
    using Cons.IH[of "start a" "slotLoop a 0 xs"] by simp
qed

lemma tidy_sorted: "tidy M xs \<Longrightarrow> sorted (map start xs)"
proof -
  assume t: "tidy M xs"
  then have "sorted_wrt (\<lambda>s t. start s \<le> start t) xs"
    unfolding tidy_def
    by (auto simp: chain_def intro!: sorted_wrt_mono_rel[of xs chain "\<lambda>s t. start s \<le> start t"])
  then show ?thesis by (simp add: sorted_map)
qed

lemma available_sorted:
  assumes "sorted (map start as)" "\<forall>a\<in>set as. start a \<le> end' a"
  shows "sorted (map start (getAvailableTimeSlots d as))"
proof -
  let ?M = "case as of [] \<Rightarrow> 0 | a # _ \<Rightarrow> start a"
  have "tidy ?M [\<lparr>start = dayStart d, end' = dayEnd d\<rparr>]"
    by (simp add: tidy_def dayStart_less_dayEnd)
  moreover have "\<forall>a\<in>set as. ?M \<le> start a \<and> start a \<le> end' a"
    using assms by (cases as) auto
  ultimately obtain M' where "tidy M' (getAvailableTimeSlots d as)"
    unfolding getAvailableTimeSlots_def using fold_tidy assms(1) by blast
  then show ?thesis by (rule tidy_sorted)
qed

section \<open>Dates of the sample values\<close>

lemma momentOfDate_mod [simp]: "momentOfDate d mod DAY = 0" "momentOfDate d mod 1000 = 0"
  by (simp_all add: momentOfDate_def DAY_def)

section \<open>The availability computation\<close>

text \<open>
  In the properties below a booked appointment is an interval of the data model: it does
  not end before it starts. The computation itself accepts any pair of instants, and on
  an appointment that ends before it starts it returns slots that overlap:
\<close>

lemmas evalSlots = getAvailableTimeSlots_def slotLoop_0 overlaps_def pushed_def between_def
  dayStart_def dayEnd_def atHour_def startOfDay_def BUSINESS_HOURS_def HOUR_def DAY_def MINUTE_def

lemma reversed_appointment_overlap:
  "getAvailableTimeSlots 0 [between (12 * HOUR) (10 * HOUR)] =
     [between (9 * HOUR) (12 * HOUR), between (10 * HOUR) (17 * HOUR)]"
  by (simp add: evalSlots)

lemma atHour_momentOfDate: "atHour (momentOfDate d) h = momentOfDate d + h * HOUR"
  by (simp add: atHour_def startOfDay_def)

text \<open>
  C6. Taking one booked interval from one base interval leaves at most two slots, the
  part of the base before the booked interval and the part after it, each only if it is
  not empty; nothing is left when the booked interval covers the base, and the base is
  left as it is when the two are disjoint. On any day, business hours 09:00-17:00 with
  one booked interval 10:00-11:00 give exactly 09:00-10:00 and 11:00-17:00.
\<close>

theorem subtract_booked_interval:
  "length (slotLoop booked 0 [base]) \<le> 2 \<and>
   (overlaps booked base \<longrightarrow>
      slotLoop booked 0 [base] =
        (if start base < start booked then [\<lparr>start = start base, end' = start booked\<rparr>] else []) @
        (if end' booked < end' base then [\<lparr>start = end' booked, end' = end' base\<rparr>] else [])) \<and>
   (start base < end' base \<and> start booked \<le> start base \<and> end' base \<le> end' booked \<longrightarrow>
      slotLoop booked 0 [base] = []) \<and>
   (start base < end' base \<and> start booked < end' booked \<and> span booked \<inter> span base = {} \<longrightarrow>
      slotLoop booked 0 [base] = [base]) \<and>
   getAvailableTimeSlots (momentOfDate d)
     [between (momentOfDate d + 10 * HOUR) (momentOfDate d + 11 * HOUR)] =
     [between (momentOfDate d + 9 * HOUR) (momentOfDate d + 10 * HOUR),
      between (momentOfDate d + 11 * HOUR) (momentOfDate d + 17 * HOUR)]"
proof (intro conjI impI)
  show "length (slotLoop booked 0 [base]) \<le> 2"
    by (simp add: slotLoop_single subtractSlot_def pushed_def)
  show "slotLoop booked 0 [base] =
        (if start base < start booked then [\<lparr>start = start base, end' = start booked\<rparr>] else []) @
        (if end' booked < end' base then [\<lparr>start = end' booked, end' = end' base\<rparr>] else [])"
    if "overlaps booked base"
    using that by (simp add: slotLoop_single subtractSlot_def pushed_def)
  show "slotLoop booked 0 [base] = []"
    if "start base < end' base \<and> start booked \<le> start base \<and> end' base \<le> end' booked"
    using that by (simp add: slotLoop_single subtractSlot_def pushed_def overlaps_def)
  show "slotLoop booked 0 [base] = [base]"
    if "start base < end' base \<and> start booked < end' booked \<and> span booked \<inter> span base = {}"
  proof -
    have "\<not> overlaps booked base"
    proof
      assume "overlaps booked base"
      with that have "max (start booked) (start base) \<in> span booked \<inter> span base"
        by (auto simp: overlaps_def span_def)
      with that show False by simp
    qed
    then show ?thesis
      by (simp add: slotLoop_single subtractSlot_def)
  qed
  show "getAvailableTimeSlots (momentOfDate d)
     [between (momentOfDate d + 10 * HOUR) (momentOfDate d + 11 * HOUR)] =
     [between (momentOfDate d + 9 * HOUR) (momentOfDate d + 10 * HOUR),
      between (momentOfDate d + 11 * HOUR) (momentOfDate d + 17 * HOUR)]"
    by (simp add: getAvailableTimeSlots_def slotLoop_single subtractSlot_def overlaps_def
        pushed_def between_def dayStart_def dayEnd_def atHour_momentOfDate BUSINESS_HOURS_def
        HOUR_def)
qed

theorem subtract_booked_interval_witness:
  "overlaps (between 10 11) (between 9 17) \<and>
   slotLoop (between 10 11) 0 [between 9 17] = [between 9 10, between 11 17] \<and>
   (start (between 9 17) < end' (between 9 17) \<and> start (between 8 18) \<le> start (between 9 17) \<and>
    end' (between 9 17) \<le> end' (between 8 18)) \<and>
   slotLoop (between 8 18) 0 [between 9 17] = [] \<and>
   (start (between 9 17) < end' (between 9 17) \<and> start (between 18 19) < end' (between 18 19) \<and>
    span (between 18 19) \<inter> span (between 9 17) = {}) \<and>
   slotLoop (between 18 19) 0 [between 9 17] = [between 9 17]"
proof -
  have 1: "overlaps (between 10 11) (between 9 17)"
    by (simp add: overlaps_def between_def)
  have 2: "start (between 9 17) < end' (between 9 17) \<and> start (between 8 18) \<le> start (between 9 17) \<and>
    end' (between 9 17) \<le> end' (between 8 18)"
    by (simp add: between_def)
  have 3: "start (between 9 17) < end' (between 9 17) \<and> start (between 18 19) < end' (between 18 19) \<and>
    span (between 18 19) \<inter> span (between 9 17) = {}"
    by (simp add: between_def span_def)
  have "slotLoop (between 10 11) 0 [between 9 17] =
        (if start (between 9 17) < start (between 10 11)
         then [\<lparr>start = start (between 9 17), end' = start (between 10 11)\<rparr>] else []) @
        (if end' (between 10 11) < end' (between 9 17)
         then [\<lparr>start = end' (between 10 11), end' = end' (between 9 17)\<rparr>] else [])"
    using subtract_booked_interval [of "between 10 11" "between 9 17" 0] 1 by blast
  then have 4: "slotLoop (between 10 11) 0 [between 9 17] = [between 9 10, between 11 17]"
    by (simp add: between_def)
  have 5: "slotLoop (between 8 18) 0 [between 9 17] = []"
    using subtract_booked_interval [of "between 8 18" "between 9 17" 0] 2 by blast
  have 6: "slotLoop (between 18 19) 0 [between 9 17] = [between 9 17]"
    using subtract_booked_interval [of "between 18 19" "between 9 17" 0] 3 by blast
  from 1 2 3 4 5 6 show ?thesis by blast
qed

text \<open>
  C5. Whatever the day and the booked appointments (each an interval, which does not
  end before it starts), no two of the returned slots overlap, and every returned slot
  starts before it ends.
\<close>

theorem availability_disjoint:
  assumes "\<forall>a\<in>set existingAppointments. start a \<le> end' a"
  shows "(\<forall>i j. i < j \<and> j < length (getAvailableTimeSlots d existingAppointments) \<longrightarrow>
            end' (getAvailableTimeSlots d existingAppointments ! i)
              \<le> start (getAvailableTimeSlots d existingAppointments ! j) \<or>
            end' (getAvailableTimeSlots d existingAppointments ! j)
              \<le> start (getAvailableTimeSlots d existingAppointments ! i)) \<and>
         (\<forall>s\<in>set (getAvailableTimeSlots d existingAppointments). start s < end' s)"
proof -
  have "sorted_wrt apart (getAvailableTimeSlots d existingAppointments)"
    using assms by (rule available_apart)
  then show ?thesis
    by (simp add: sorted_wrt_iff_nth_less apart_def available_wf)
qed

theorem availability_disjoint_witness:
  "start (between (10 * HOUR) (11 * HOUR)) \<le> end' (between (10 * HOUR) (11 * HOUR)) \<and>
   start (between (12 * HOUR) (13 * HOUR)) \<le> end' (between (12 * HOUR) (13 * HOUR)) \<and>
   getAvailableTimeSlots 0 [between (10 * HOUR) (11 * HOUR), between (12 * HOUR) (13 * HOUR)] =
     [between (9 * HOUR) (10 * HOUR), between (11 * HOUR) (12 * HOUR),
      between (13 * HOUR) (17 * HOUR)] \<and>
   (end' (getAvailableTimeSlots 0
            [between (10 * HOUR) (11 * HOUR), between (12 * HOUR) (13 * HOUR)] ! 0)
      \<le> start (getAvailableTimeSlots 0
            [between (10 * HOUR) (11 * HOUR), between (12 * HOUR) (13 * HOUR)] ! 2) \<or>
    end' (getAvailableTimeSlots 0
            [between (10 * HOUR) (11 * HOUR), between (12 * HOUR) (13 * HOUR)] ! 2)
      \<le> start (getAvailableTimeSlots 0
            [between (10 * HOUR) (11 * HOUR), between (12 * HOUR) (13 * HOUR)] ! 0)) \<and>
   start (getAvailableTimeSlots 0
            [between (10 * HOUR) (11 * HOUR), between (12 * HOUR) (13 * HOUR)] ! 2)
     < end' (getAvailableTimeSlots 0
            [between (10 * HOUR) (11 * HOUR), between (12 * HOUR) (13 * HOUR)] ! 2)"
proof -
  let ?booked = "[between (10 * HOUR) (11 * HOUR), between (12 * HOUR) (13 * HOUR)]"
  have e: "start (between (10 * HOUR) (11 * HOUR)) \<le> end' (between (10 * HOUR) (11 * HOUR)) \<and>
           start (between (12 * HOUR) (13 * HOUR)) \<le> end' (between (12 * HOUR) (13 * HOUR))"
    by (simp add: between_def HOUR_def)
  then have h: "\<forall>a\<in>set ?booked. start a \<le> end' a"
    by simp
  have v: "getAvailableTimeSlots 0 ?booked =
     [between (9 * HOUR) (10 * HOUR), between (11 * HOUR) (12 * HOUR),
      between (13 * HOUR) (17 * HOUR)]"
    by (simp add: evalSlots)
  then have l: "(0::nat) < 2 \<and> 2 < length (getAvailableTimeSlots 0 ?booked)"
    and m: "getAvailableTimeSlots 0 ?booked ! 2 \<in> set (getAvailableTimeSlots 0 ?booked)"
    by simp_all
  from availability_disjoint [OF h, of 0] l m e v show ?thesis
    by blast
qed

text \<open>
  C9. Whatever the day and the booked appointments (each an interval, which does not
  end before it starts), the instants of the returned slots, together with those of the
  booked appointments that fall in the business hours, are exactly the instants of the
  business hours: there is no gap. There is no double coverage: no instant is both free
  and booked, and no instant is in two returned slots.
\<close>

theorem availability_closure:
  assumes "\<forall>a\<in>set existingAppointments. start a \<le> end' a"
  shows "covered (getAvailableTimeSlots d existingAppointments) \<union>
           (\<Union>a\<in>set existingAppointments. span a \<inter> {dayStart d ..< dayEnd d})
         = {dayStart d ..< dayEnd d} \<and>
         covered (getAvailableTimeSlots d existingAppointments) \<inter>
           (\<Union>a\<in>set existingAppointments. span a) = {} \<and>
         (\<forall>i j. i < j \<and> j < length (getAvailableTimeSlots d existingAppointments) \<longrightarrow>
            span (getAvailableTimeSlots d existingAppointments ! i) \<inter>
            span (getAvailableTimeSlots d existingAppointments ! j) = {})"
proof -
  have "sorted_wrt apart (getAvailableTimeSlots d existingAppointments)"
    using assms by (rule available_apart)
  then have "\<forall>i j. i < j \<and> j < length (getAvailableTimeSlots d existingAppointments) \<longrightarrow>
            span (getAvailableTimeSlots d existingAppointments ! i) \<inter>
            span (getAvailableTimeSlots d existingAppointments ! j) = {}"
    by (simp add: sorted_wrt_iff_nth_less apart_disjoint)
  moreover have "covered (getAvailableTimeSlots d existingAppointments) =
      {dayStart d ..< dayEnd d} - (\<Union>a\<in>set existingAppointments. span a)"
    using assms by (rule available_covered)
  ultimately show ?thesis by auto
qed

theorem availability_closure_witness:
  "start (between (10 * HOUR) (11 * HOUR)) \<le> end' (between (10 * HOUR) (11 * HOUR)) \<and>
   start (between (16 * HOUR) (18 * HOUR)) \<le> end' (between (16 * HOUR) (18 * HOUR)) \<and>
   covered (getAvailableTimeSlots 0 [between (10 * HOUR) (11 * HOUR), between (16 * HOUR) (18 * HOUR)]) \<union>
     (\<Union>a\<in>set [between (10 * HOUR) (11 * HOUR), between (16 * HOUR) (18 * HOUR)].
        span a \<inter> {dayStart 0 ..< dayEnd 0})
     = {dayStart 0 ..< dayEnd 0} \<and>
   covered (getAvailableTimeSlots 0 [between (10 * HOUR) (11 * HOUR), between (16 * HOUR) (18 * HOUR)]) \<inter>
     (\<Union>a\<in>set [between (10 * HOUR) (11 * HOUR), between (16 * HOUR) (18 * HOUR)]. span a) = {} \<and>
   getAvailableTimeSlots 0 [between (10 * HOUR) (11 * HOUR), between (16 * HOUR) (18 * HOUR)] =
     [between (9 * HOUR) (10 * HOUR), between (11 * HOUR) (16 * HOUR)] \<and>
   span (getAvailableTimeSlots 0
           [between (10 * HOUR) (11 * HOUR), between (16 * HOUR) (18 * HOUR)] ! 0) \<inter>
   span (getAvailableTimeSlots 0
           [between (10 * HOUR) (11 * HOUR), between (16 * HOUR) (18 * HOUR)] ! 1) = {}"
proof -
  let ?booked = "[between (10 * HOUR) (11 * HOUR), between (16 * HOUR) (18 * HOUR)]"
  have e: "start (between (10 * HOUR) (11 * HOUR)) \<le> end' (between (10 * HOUR) (11 * HOUR)) \<and>
           start (between (16 * HOUR) (18 * HOUR)) \<le> end' (between (16 * HOUR) (18 * HOUR))"
    by (simp add: between_def HOUR_def)
  then have h: "\<forall>a\<in>set ?booked. start a \<le> end' a"
    by simp
  have v: "getAvailableTimeSlots 0 ?booked =
     [between (9 * HOUR) (10 * HOUR), between (11 * HOUR) (16 * HOUR)]"
    by (simp add: evalSlots)
  then have l: "(0::nat) < 1 \<and> 1 < length (getAvailableTimeSlots 0 ?booked)"
    by simp
  from availability_closure [OF h, of 0] l e v show ?thesis
    by blast
qed

text \<open>
  C7. Giving the booked appointments (each an interval, which does not end before it
  starts) in another order leaves the set of returned slots unchanged.
\<close>

theorem availability_permutation:
  assumes "\<forall>a\<in>set existingAppointments. start a \<le> end' a"
    and "mset permuted = mset existingAppointments"
  shows "set (getAvailableTimeSlots d permuted) = set (getAvailableTimeSlots d existingAppointments)"
proof -
  have "fold (\<lambda>a S. \<Union>s\<in>S. set (subtractSlot a s)) existingAppointments =
        fold (\<lambda>a S. \<Union>s\<in>S. set (subtractSlot a s)) permuted"
    using assms by (intro fold_multiset_equiv subtract_sets_commute) auto
  then show ?thesis
    by (simp add: getAvailableTimeSlots_def set_fold_slotLoop)
qed

theorem availability_permutation_witness:
  "start (between (10 * HOUR) (11 * HOUR)) \<le> end' (between (10 * HOUR) (11 * HOUR)) \<and>
   start (between (9 * HOUR + 30 * MINUTE) (9 * HOUR + 45 * MINUTE))
     \<le> end' (between (9 * HOUR + 30 * MINUTE) (9 * HOUR + 45 * MINUTE)) \<and>
   mset [between (9 * HOUR + 30 * MINUTE) (9 * HOUR + 45 * MINUTE), between (10 * HOUR) (11 * HOUR)] =
   mset [between (10 * HOUR) (11 * HOUR), between (9 * HOUR + 30 * MINUTE) (9 * HOUR + 45 * MINUTE)] \<and>
   set (getAvailableTimeSlots 0
     [between (9 * HOUR + 30 * MINUTE) (9 * HOUR + 45 * MINUTE), between (10 * HOUR) (11 * HOUR)]) =
   set (getAvailableTimeSlots 0
     [between (10 * HOUR) (11 * HOUR), between (9 * HOUR + 30 * MINUTE) (9 * HOUR + 45 * MINUTE)])"
proof -
  have e: "start (between (10 * HOUR) (11 * HOUR)) \<le> end' (between (10 * HOUR) (11 * HOUR)) \<and>
   start (between (9 * HOUR + 30 * MINUTE) (9 * HOUR + 45 * MINUTE))
     \<le> end' (between (9 * HOUR + 30 * MINUTE) (9 * HOUR + 45 * MINUTE))"
    by (simp add: between_def HOUR_def MINUTE_def)
  then have h: "\<forall>a\<in>set [between (10 * HOUR) (11 * HOUR),
                          between (9 * HOUR + 30 * MINUTE) (9 * HOUR + 45 * MINUTE)].
      start a \<le> end' a"
    by simp
  have m: "mset [between (9 * HOUR + 30 * MINUTE) (9 * HOUR + 45 * MINUTE), between (10 * HOUR) (11 * HOUR)] =
   mset [between (10 * HOUR) (11 * HOUR), between (9 * HOUR + 30 * MINUTE) (9 * HOUR + 45 * MINUTE)]"
    by simp
  from availability_permutation [OF h m, of 0] e m show ?thesis
    by blast
qed

text \<open>
  With the appointment 10:00-11:00 given before the appointment 09:30-09:45, the slot
  11:00-17:00 comes first in the result: the remainders of a split slot are appended at
  the end of the array.
\<close>

theorem availability_unordered_counterexample:
  "getAvailableTimeSlots 0
     [between (10 * HOUR) (11 * HOUR), between (9 * HOUR + 30 * MINUTE) (9 * HOUR + 45 * MINUTE)] =
     [between (11 * HOUR) (17 * HOUR), between (9 * HOUR) (9 * HOUR + 30 * MINUTE),
      between (9 * HOUR + 45 * MINUTE) (10 * HOUR)] \<and>
   \<not> sorted (map start (getAvailableTimeSlots 0
     [between (10 * HOUR) (11 * HOUR), between (9 * HOUR + 30 * MINUTE) (9 * HOUR + 45 * MINUTE)]))"
  by (simp add: evalSlots)

text \<open>
  C4, as the code has it. Every returned slot starts before it ends (there is no slot of
  length zero); the slots are in the order of their starts when the booked appointments
  are given in the order of their starts; and the same input gives the same list.
\<close>

theorem availability_order:
  "(\<forall>s\<in>set (getAvailableTimeSlots d existingAppointments). start s < end' s) \<and>
   (sorted (map start existingAppointments) \<and>
    (\<forall>a\<in>set existingAppointments. start a \<le> end' a) \<longrightarrow>
      sorted (map start (getAvailableTimeSlots d existingAppointments))) \<and>
   (d' = d \<and> again = existingAppointments \<longrightarrow>
      getAvailableTimeSlots d' again = getAvailableTimeSlots d existingAppointments)"
  using available_wf [of d existingAppointments] available_sorted [of existingAppointments d]
  by blast

theorem availability_order_witness:
  "sorted (map start [between (10 * HOUR) (11 * HOUR), between (12 * HOUR) (13 * HOUR)]) \<and>
   start (between (10 * HOUR) (11 * HOUR)) \<le> end' (between (10 * HOUR) (11 * HOUR)) \<and>
   start (between (12 * HOUR) (13 * HOUR)) \<le> end' (between (12 * HOUR) (13 * HOUR)) \<and>
   sorted (map start (getAvailableTimeSlots 0
      [between (10 * HOUR) (11 * HOUR), between (12 * HOUR) (13 * HOUR)])) \<and>
   start (getAvailableTimeSlots 0
      [between (10 * HOUR) (11 * HOUR), between (12 * HOUR) (13 * HOUR)] ! 1)
     < end' (getAvailableTimeSlots 0
      [between (10 * HOUR) (11 * HOUR), between (12 * HOUR) (13 * HOUR)] ! 1) \<and>
   getAvailableTimeSlots 0 [between (10 * HOUR) (11 * HOUR), between (12 * HOUR) (13 * HOUR)] =
     [between (9 * HOUR) (10 * HOUR), between (11 * HOUR) (12 * HOUR),
      between (13 * HOUR) (17 * HOUR)]"
proof -
  let ?booked = "[between (10 * HOUR) (11 * HOUR), between (12 * HOUR) (13 * HOUR)]"
  have e: "sorted (map start ?booked) \<and>
   start (between (10 * HOUR) (11 * HOUR)) \<le> end' (between (10 * HOUR) (11 * HOUR)) \<and>
   start (between (12 * HOUR) (13 * HOUR)) \<le> end' (between (12 * HOUR) (13 * HOUR))"
    by (simp add: between_def HOUR_def)
  then have h: "sorted (map start ?booked) \<and> (\<forall>a\<in>set ?booked. start a \<le> end' a)"
    by simp
  have v: "getAvailableTimeSlots 0 ?booked =
     [between (9 * HOUR) (10 * HOUR), between (11 * HOUR) (12 * HOUR),
      between (13 * HOUR) (17 * HOUR)]"
    by (simp add: evalSlots)
  then have m: "getAvailableTimeSlots 0 ?booked ! 1 \<in> set (getAvailableTimeSlots 0 ?booked)"
    by simp
  from availability_order [of 0 ?booked 0 ?booked] h m e v
  show ?thesis by blast
qed

section \<open>The booking endpoint\<close>

text \<open>
  C10. A booking request in which one of the fields name, address, service, date or time
  is missing is answered with status 400 and the body \<open>Missing required fields\<close>, and
  the controller calls none of the services: no calendar read, no route analysis, no
  appointment creation.
\<close>

theorem bookAppointment_missing_field:
  assumes "body_name req = None \<or> body_address req = None \<or> body_service req = None \<or>
           body_date req = None \<or> body_time req = None"
  shows "bookAppointment env req =
           (\<lparr>statusCode = 400, body = ErrorBody ''Missing required fields''\<rparr>, [])"
  using assms by (auto simp: bookAppointment_def requiredMissing_def falsy_def)

theorem bookAppointment_missing_field_witness:
  "(body_name (completeRequest\<lparr>body_time := None\<rparr>) = None \<or>
    body_address (completeRequest\<lparr>body_time := None\<rparr>) = None \<or>
    body_service (completeRequest\<lparr>body_time := None\<rparr>) = None \<or>
    body_date (completeRequest\<lparr>body_time := None\<rparr>) = None \<or>
    body_time (completeRequest\<lparr>body_time := None\<rparr>) = None) \<and>
   bookAppointment workingEnv (completeRequest\<lparr>body_time := None\<rparr>) =
     (\<lparr>statusCode = 400, body = ErrorBody ''Missing required fields''\<rparr>, [])"
  using bookAppointment_missing_field [of "completeRequest\<lparr>body_time := None\<rparr>" workingEnv]
  by simp

section \<open>The calendar lookup\<close>

lemma getAppointmentsForDay_unreachable:
  "storeUnreachable env d \<Longrightarrow> getAppointmentsForDay env d = []"
  by (auto simp: storeUnreachable_def getAppointmentsForDay_def isl_def split: sum.splits)

text \<open>
  With a calendar whose \<open>events.list\<close> throws, the lookup of the day returns the empty
  list instead of failing, and the booking of a complete request ends with status 201.
\<close>

theorem lookup_unreachable_counterexample:
  "storeUnreachable unreachableEnv (momentOfDate 2) \<and>
   getAppointmentsForDay unreachableEnv (momentOfDate 2) = [] \<and>
   statusCode (fst (bookAppointment unreachableEnv completeRequest)) = 201"
  by (simp add: storeUnreachable_def unreachableEnv_def workingEnv_def getAppointmentsForDay_def
      bookAppointment_def completeRequest_def requiredMissing_def falsy_def analyzeRoute_def
      getGeocodedLocations_def calculateTravelTimes_def findBestTimeSlot_def
      findAvailableTimeSlots_def slotsOfDay_def isBetween_def
      preferredDateTime_def atHour_def startOfDay_def createAppointment_def
      momentOfDate_def DAY_def HOUR_def Let_def)

text \<open>
  C2, as the code has it. When the calendar store is unreachable (the client cannot be
  obtained or \<open>events.list\<close> throws), \<open>getAppointmentsForDay\<close> returns the empty list
  and raises nothing; a booking attempt with all required fields goes on to the route
  analysis with that empty list.
\<close>

theorem lookup_unreachable_empty:
  assumes "storeUnreachable env d"
  shows "getAppointmentsForDay env d = [] \<and>
         (\<forall>req. \<not> requiredMissing req \<and> momentOfDate (the (body_date req)) = d \<longrightarrow>
            take 2 (snd (bookAppointment env req)) =
              [GetAppointmentsForDay d, AnalyzeRoute (the (body_address req)) []])"
  using getAppointmentsForDay_unreachable[OF assms]
  by (auto simp: bookAppointment_def Let_def split: option.splits sum.splits)

theorem lookup_unreachable_empty_witness:
  "storeUnreachable unreachableEnv (momentOfDate 2) \<and>
   \<not> requiredMissing completeRequest \<and>
   momentOfDate (the (body_date completeRequest)) = momentOfDate 2 \<and>
   getAppointmentsForDay unreachableEnv (momentOfDate 2) = [] \<and>
   take 2 (snd (bookAppointment unreachableEnv completeRequest)) =
     [GetAppointmentsForDay (momentOfDate 2),
      AnalyzeRoute (the (body_address completeRequest)) []]"
proof -
  have u: "storeUnreachable unreachableEnv (momentOfDate 2)"
    by (simp add: storeUnreachable_def unreachableEnv_def workingEnv_def)
  have r: "\<not> requiredMissing completeRequest \<and>
           momentOfDate (the (body_date completeRequest)) = momentOfDate 2"
    by (simp add: requiredMissing_def completeRequest_def falsy_def)
  show ?thesis
    using u r lookup_unreachable_empty [OF u] by blast
qed

section \<open>The slot resolver\<close>

lemma firstPreferred_None:
  "firstPreferred prefs slots = None \<longleftrightarrow> (\<forall>p\<in>set prefs. \<not> inWindow p slots)"
  by (induction prefs) (auto simp: inWindow_def isBetween_def list_ex_iff)

lemma firstPreferred_Some:
  "firstPreferred prefs slots = Some p \<Longrightarrow>
   inWindow p slots \<and>
   (\<exists>i<length prefs. prefs ! i = p \<and> (\<forall>j<i. \<not> inWindow (prefs ! j) slots))"
proof (induction prefs)
  case Nil
  then show ?case by simp
next
  case (Cons q prefs)
  show ?case
  proof (cases "inWindow q slots")
    case True
    with Cons.prems have "p = q"
      by (simp add: inWindow_def isBetween_def list_ex_iff)
    with True show ?thesis by auto
  next
    case False
    with Cons.prems have "firstPreferred prefs slots = Some p"
      by (auto simp: inWindow_def isBetween_def list_ex_iff split: if_splits)
    from Cons.IH[OF this] obtain i where i: "inWindow p slots" "i < length prefs" "prefs ! i = p"
      "\<forall>j<i. \<not> inWindow (prefs ! j) slots" by blast
    have "\<forall>j<Suc i. \<not> inWindow ((q # prefs) ! j) slots"
      using False i(4) by (auto simp: nth_Cons split: nat.splits)
    with i show ?thesis
      by (intro conjI exI[of _ "Suc i"]) auto
  qed
qed

lemma preferredDateTime_format:
  "preferredDateTime \<lparr>date = formatDate t, time = formatTime t\<rparr> = t - t mod MINUTE"
proof -
  have "DAY = 1440 * MINUTE" by (simp add: DAY_def MINUTE_def)
  have "t mod DAY mod MINUTE = t mod MINUTE"
    by (simp add: DAY_def MINUTE_def mod_mod_cancel)
  then have "(t mod DAY) div MINUTE * MINUTE = t mod DAY - t mod MINUTE"
    by (metis minus_mod_eq_div_mult)
  then show ?thesis
    by (simp add: preferredDateTime_def formatDate_def formatTime_def momentOfDate_def
        minus_mod_eq_div_mult [symmetric])
qed

text \<open>
  A preference at 11:30 against the single window 09:00-12:00 is returned as it is, though
  with a duration of 60 minutes it would end at 12:30, after the window.
\<close>

theorem resolver_duration_counterexample:
  "findBestTimeSlot [\<lparr>date = 0, time = 11 * HOUR + 30 * MINUTE\<rparr>]
     (windows [between (9 * HOUR) (12 * HOUR)])
     = Some \<lparr>date = 0, time = 11 * HOUR + 30 * MINUTE\<rparr> \<and>
   \<not> (start (between (9 * HOUR) (12 * HOUR))
         \<le> preferredDateTime \<lparr>date = 0, time = 11 * HOUR + 30 * MINUTE\<rparr> \<and>
       preferredDateTime \<lparr>date = 0, time = 11 * HOUR + 30 * MINUTE\<rparr> + 60 * MINUTE
         \<le> end' (between (9 * HOUR) (12 * HOUR)))"
  by (simp add: findBestTimeSlot_def windows_def between_def isBetween_def preferredDateTime_def
      momentOfDate_def HOUR_def MINUTE_def)

text \<open>
  C1, as the code has it. The resolver has no duration among its inputs and tests the
  start instant only. Whenever some ranked preference has its instant in a window, the
  resolver returns the first such preference, and the instant \<open>t\<close> of the returned
  preference lies in a single window under half-open containment, \<open>start \<le> t < end\<close>:
  an instant equal to the end of a window is not in that window.
\<close>

theorem resolver_start_within:
  assumes "findBestTimeSlot timePreferences analysis = Some chosen"
    and "\<exists>p\<in>set timePreferences. inWindow p (availableTimeSlots analysis)"
  shows "(\<exists>i<length timePreferences. timePreferences ! i = chosen \<and>
            (\<forall>j<i. \<not> inWindow (timePreferences ! j) (availableTimeSlots analysis))) \<and>
         (\<exists>slot\<in>set (availableTimeSlots analysis).
            start slot \<le> preferredDateTime chosen \<and> preferredDateTime chosen < end' slot)"
proof -
  from assms(2) have "firstPreferred timePreferences (availableTimeSlots analysis) \<noteq> None"
    by (simp add: firstPreferred_None)
  with assms(1) have "firstPreferred timePreferences (availableTimeSlots analysis) = Some chosen"
    by (auto simp: findBestTimeSlot_def)
  from firstPreferred_Some[OF this] show ?thesis
    by (simp add: inWindow_def)
qed

theorem resolver_start_within_witness:
  "findBestTimeSlot [\<lparr>date = 0, time = 10 * HOUR + 30 * MINUTE\<rparr>, \<lparr>date = 0, time = 9 * HOUR\<rparr>]
     (windows [between (9 * HOUR) (10 * HOUR), between (11 * HOUR) (17 * HOUR)])
     = Some \<lparr>date = 0, time = 9 * HOUR\<rparr> \<and>
   inWindow \<lparr>date = 0, time = 9 * HOUR\<rparr>
     (availableTimeSlots (windows [between (9 * HOUR) (10 * HOUR), between (11 * HOUR) (17 * HOUR)])) \<and>
   (\<exists>slot\<in>set (availableTimeSlots
        (windows [between (9 * HOUR) (10 * HOUR), between (11 * HOUR) (17 * HOUR)])).
      start slot \<le> preferredDateTime \<lparr>date = 0, time = 9 * HOUR\<rparr> \<and>
      preferredDateTime \<lparr>date = 0, time = 9 * HOUR\<rparr> < end' slot)"
proof -
  let ?prefs = "[\<lparr>date = 0, time = 10 * HOUR + 30 * MINUTE\<rparr>, \<lparr>date = 0, time = 9 * HOUR\<rparr>]"
  let ?an = "windows [between (9 * HOUR) (10 * HOUR), between (11 * HOUR) (17 * HOUR)]"
  have f: "findBestTimeSlot ?prefs ?an = Some \<lparr>date = 0, time = 9 * HOUR\<rparr>"
    by (simp add: findBestTimeSlot_def windows_def between_def isBetween_def preferredDateTime_def
      momentOfDate_def HOUR_def MINUTE_def)
  have w: "inWindow \<lparr>date = 0, time = 9 * HOUR\<rparr> (availableTimeSlots ?an)"
    by (simp add: inWindow_def windows_def between_def preferredDateTime_def
      momentOfDate_def HOUR_def)
  then have "\<exists>p\<in>set ?prefs. inWindow p (availableTimeSlots ?an)"
    by simp
  from resolver_start_within [OF f this] f w show ?thesis
    by blast
qed

text \<open>
  With no preference and the windows listed as 14:00-17:00, 09:00-12:00, the resolver
  returns 14:00, the start of the first window listed; the earliest start is 09:00. With
  the single window 09:00:30-12:00 it returns 09:00, half a minute before the window.
\<close>

theorem fallback_first_counterexample:
  "findBestTimeSlot [] (windows [between (14 * HOUR) (17 * HOUR), between (9 * HOUR) (12 * HOUR)])
     = Some \<lparr>date = 0, time = 14 * HOUR\<rparr> \<and>
   preferredDateTime \<lparr>date = 0, time = 14 * HOUR\<rparr> = 14 * HOUR \<and>
   Min (set (map start [between (14 * HOUR) (17 * HOUR), between (9 * HOUR) (12 * HOUR)])) = 9 * HOUR \<and>
   9 * HOUR < 14 * HOUR \<and>
   findBestTimeSlot [] (windows [between (9 * HOUR + 30000) (12 * HOUR)])
     = Some \<lparr>date = 0, time = 9 * HOUR\<rparr> \<and>
   preferredDateTime \<lparr>date = 0, time = 9 * HOUR\<rparr>
     < start (between (9 * HOUR + 30000) (12 * HOUR))"
  by (simp add: findBestTimeSlot_def windows_def between_def preferredDateTime_def
      formatDate_def formatTime_def momentOfDate_def HOUR_def MINUTE_def DAY_def)

text \<open>
  C8, as the code has it. When no preference has its instant in a window and the list of
  windows is not empty, the resolver returns the date and the hour and minute of the start
  of the first window of the list: that is this start with its seconds and milliseconds
  dropped, and it is the earliest start when the list is in the order of the starts.
\<close>

theorem fallback_first_listed:
  assumes "availableTimeSlots analysis = firstAvailable # others"
    and "\<forall>p\<in>set timePreferences. \<not> inWindow p (availableTimeSlots analysis)"
  shows "findBestTimeSlot timePreferences analysis =
           Some \<lparr>date = formatDate (start firstAvailable), time = formatTime (start firstAvailable)\<rparr> \<and>
         preferredDateTime \<lparr>date = formatDate (start firstAvailable),
                            time = formatTime (start firstAvailable)\<rparr>
           = start firstAvailable - start firstAvailable mod MINUTE \<and>
         (sorted (map start (availableTimeSlots analysis)) \<longrightarrow>
            (\<forall>slot\<in>set (availableTimeSlots analysis). start firstAvailable \<le> start slot))"
proof -
  from assms(2) have "firstPreferred timePreferences (availableTimeSlots analysis) = None"
    by (simp add: firstPreferred_None)
  then have "findBestTimeSlot timePreferences analysis =
           Some \<lparr>date = formatDate (start firstAvailable), time = formatTime (start firstAvailable)\<rparr>"
    using assms(1) by (simp add: findBestTimeSlot_def)
  moreover have "sorted (map start (availableTimeSlots analysis)) \<longrightarrow>
            (\<forall>slot\<in>set (availableTimeSlots analysis). start firstAvailable \<le> start slot)"
    using assms(1) by auto
  ultimately show ?thesis
    by (simp add: preferredDateTime_format)
qed

theorem fallback_first_listed_witness:
  "availableTimeSlots (windows [between (14 * HOUR) (17 * HOUR)]) =
     between (14 * HOUR) (17 * HOUR) # [] \<and>
   \<not> inWindow \<lparr>date = 0, time = 13 * HOUR\<rparr>
       (availableTimeSlots (windows [between (14 * HOUR) (17 * HOUR)])) \<and>
   sorted (map start (availableTimeSlots (windows [between (14 * HOUR) (17 * HOUR)]))) \<and>
   findBestTimeSlot [\<lparr>date = 0, time = 13 * HOUR\<rparr>] (windows [between (14 * HOUR) (17 * HOUR)]) =
     Some \<lparr>date = formatDate (start (between (14 * HOUR) (17 * HOUR))),
           time = formatTime (start (between (14 * HOUR) (17 * HOUR)))\<rparr> \<and>
   preferredDateTime \<lparr>date = formatDate (start (between (14 * HOUR) (17 * HOUR))),
                      time = formatTime (start (between (14 * HOUR) (17 * HOUR)))\<rparr> =
     start (between (14 * HOUR) (17 * HOUR)) - start (between (14 * HOUR) (17 * HOUR)) mod MINUTE"
proof -
  let ?an = "windows [between (14 * HOUR) (17 * HOUR)]"
  have a: "availableTimeSlots ?an = between (14 * HOUR) (17 * HOUR) # []"
    by (simp add: windows_def)
  have e: "\<not> inWindow \<lparr>date = 0, time = 13 * HOUR\<rparr> (availableTimeSlots ?an)"
    by (simp add: inWindow_def windows_def between_def preferredDateTime_def momentOfDate_def
        HOUR_def)
  then have n: "\<forall>p\<in>set [\<lparr>date = 0, time = 13 * HOUR\<rparr>]. \<not> inWindow p (availableTimeSlots ?an)"
    by simp
  have s: "sorted (map start (availableTimeSlots ?an))"
    by (simp add: windows_def)
  from fallback_first_listed [OF a n] a e s show ?thesis
    by blast
qed

section \<open>The route analysis\<close>

lemma analyzeRoute_windows:
  "availableTimeSlots (analyzeRoute env addr appts) = nextSevenDays (now env)"
  by (simp add: analyzeRoute_def getGeocodedLocations_def calculateTravelTimes_def
      findAvailableTimeSlots_def nextSevenDays_def Let_def)

lemma analyzeRoute_not_mock: "analyzeRoute env addr appts \<noteq> mockAnalysis (now env)"
proof
  assume "analyzeRoute env addr appts = mockAnalysis (now env)"
  then have "estimatedTravelTime (analyzeRoute env addr appts) = Minutes 30"
    by (simp add: mockAnalysis_def)
  then show False
    by (simp add: analyzeRoute_def getGeocodedLocations_def calculateTravelTimes_def Let_def)
qed

lemma nextSevenDays_length: "length (nextSevenDays clock) = 14"
  by (simp add: nextSevenDays_def slotsOfDay_def)

lemma findBestTimeSlot_windows:
  "availableTimeSlots analysis \<noteq> [] \<Longrightarrow> findBestTimeSlot prefs analysis \<noteq> None"
  by (auto simp: findBestTimeSlot_def split: option.splits list.splits)

lemma findBestTimeSlot_no_windows:
  "availableTimeSlots analysis = [] \<Longrightarrow> findBestTimeSlot prefs analysis = None"
  by (induction prefs) (auto simp: findBestTimeSlot_def split: option.splits)

lemma bookAppointment_complete:
  assumes "\<not> requiredMissing req"
    and "findBestTimeSlot
          ([\<lparr>date = the (body_date req), time = the (body_time req)\<rparr>] @
           (case (body_alt_date req, body_alt_time req) of
              (Some altDate, Some altTime) \<Rightarrow> [\<lparr>date = altDate, time = altTime\<rparr>]
            | _ \<Rightarrow> []))
          (analyzeRoute env (the (body_address req))
             (getAppointmentsForDay env (momentOfDate (the (body_date req))))) = Some best"
    and "getClient env = Inr ()"
  shows "statusCode (fst (bookAppointment env req)) = 201"
    and "FindBestTimeSlot
          ([\<lparr>date = the (body_date req), time = the (body_time req)\<rparr>] @
           (case (body_alt_date req, body_alt_time req) of
              (Some altDate, Some altTime) \<Rightarrow> [\<lparr>date = altDate, time = altTime\<rparr>]
            | _ \<Rightarrow> []))
          (analyzeRoute env (the (body_address req))
             (getAppointmentsForDay env (momentOfDate (the (body_date req)))))
         \<in> set (snd (bookAppointment env req))"
  unfolding bookAppointment_def Let_def createAppointment_def
  by (simp_all only: assms if_False option.case sum.case fst_conv snd_conv response.simps
      set_append list.set insertI1 UnI1 insertI2)

lemma bookAppointment_no_client:
  assumes "\<not> requiredMissing req"
    and "findBestTimeSlot
          ([\<lparr>date = the (body_date req), time = the (body_time req)\<rparr>] @
           (case (body_alt_date req, body_alt_time req) of
              (Some altDate, Some altTime) \<Rightarrow> [\<lparr>date = altDate, time = altTime\<rparr>]
            | _ \<Rightarrow> []))
          (analyzeRoute env (the (body_address req))
             (getAppointmentsForDay env (momentOfDate (the (body_date req))))) = Some best"
    and "getClient env = Inl e"
  shows "statusCode (fst (bookAppointment env req)) = 500"
  unfolding bookAppointment_def Let_def createAppointment_def
  by (simp only: assms if_False option.case sum.case fst_conv response.simps)

text \<open>
  Given an analysis with no window, the resolver returns no slot, though the preference
  of 10:00 lies in the free interval 09:00-17:00 of its day: an empty list of windows is
  not taken as the full free availability.
\<close>

theorem route_no_windows_counterexample:
  "availableTimeSlots (windows []) = [] \<and>
   findBestTimeSlot [\<lparr>date = 2, time = 10 * HOUR\<rparr>] (windows []) = None \<and>
   getAvailableTimeSlots (momentOfDate 2) ([] :: appointment list) =
     [between (2 * DAY + 9 * HOUR) (2 * DAY + 17 * HOUR)] \<and>
   inWindow \<lparr>date = 2, time = 10 * HOUR\<rparr>
     (getAvailableTimeSlots (momentOfDate 2) ([] :: appointment list))"
  by (simp add: between_def getAvailableTimeSlots_def dayStart_def dayEnd_def
      BUSINESS_HOURS_def atHour_def startOfDay_def findBestTimeSlot_def windows_def
      inWindow_def preferredDateTime_def momentOfDate_def DAY_def HOUR_def)

text \<open>
  C3, as the code has it. The route analysis raises nothing and never comes back without
  windows: for every address, list of appointments, sequence of random values and clock,
  \<open>analyzeRoute\<close> returns the fourteen windows of the seven days after the clock (its
  \<open>catch\<close> is never taken), whatever the free intervals of the requested day. A booking
  attempt with all required fields therefore always resolves a slot and goes on to create
  the appointment: it ends with status 201, or with 500 when the calendar client cannot be
  obtained, never with 409. The resolver does not fail open: given an analysis with no
  window, it returns no slot.
\<close>

theorem route_analysis_total:
  "availableTimeSlots (analyzeRoute env newAppointmentAddress existingAppointments) =
     nextSevenDays (now env) \<and>
   length (availableTimeSlots (analyzeRoute env newAppointmentAddress existingAppointments)) = 14 \<and>
   analyzeRoute env newAppointmentAddress existingAppointments \<noteq> mockAnalysis (now env) \<and>
   (\<not> requiredMissing req \<longrightarrow>
      statusCode (fst (bookAppointment env req)) = (if isl (getClient env) then 500 else 201)) \<and>
   (availableTimeSlots analysis = [] \<longrightarrow> findBestTimeSlot timePreferences analysis = None)"
proof (intro conjI impI)
  show w: "availableTimeSlots (analyzeRoute env newAppointmentAddress existingAppointments) =
     nextSevenDays (now env)"
    by (rule analyzeRoute_windows)
  then show "length (availableTimeSlots
      (analyzeRoute env newAppointmentAddress existingAppointments)) = 14"
    by (simp add: nextSevenDays_length)
  show "analyzeRoute env newAppointmentAddress existingAppointments \<noteq> mockAnalysis (now env)"
    by (rule analyzeRoute_not_mock)
  show "findBestTimeSlot timePreferences analysis = None" if "availableTimeSlots analysis = []"
    using that by (rule findBestTimeSlot_no_windows)
  let ?prefs = "[\<lparr>date = the (body_date req), time = the (body_time req)\<rparr>] @
         (case (body_alt_date req, body_alt_time req) of
            (Some altDate, Some altTime) \<Rightarrow> [\<lparr>date = altDate, time = altTime\<rparr>]
          | _ \<Rightarrow> [])"
  let ?analysis = "analyzeRoute env (the (body_address req))
      (getAppointmentsForDay env (momentOfDate (the (body_date req))))"
  assume r: "\<not> requiredMissing req"
  have "length (availableTimeSlots ?analysis) = 14"
    by (simp add: analyzeRoute_windows nextSevenDays_length)
  then have "availableTimeSlots ?analysis \<noteq> []"
    by auto
  then have "findBestTimeSlot ?prefs ?analysis \<noteq> None"
    by (rule findBestTimeSlot_windows)
  then obtain best where f: "findBestTimeSlot ?prefs ?analysis = Some best"
    by blast
  show "statusCode (fst (bookAppointment env req)) = (if isl (getClient env) then 500 else 201)"
  proof (cases "getClient env")
    case (Inl e)
    with bookAppointment_no_client [OF r f Inl] show ?thesis by simp
  next
    case (Inr u)
    then have "getClient env = Inr ()" by simp
    with bookAppointment_complete(1) [OF r f this] show ?thesis by simp
  qed
qed

theorem route_analysis_total_witness:
  "\<not> requiredMissing completeRequest \<and>
   statusCode (fst (bookAppointment workingEnv completeRequest)) = 201 \<and>
   length (availableTimeSlots (analyzeRoute workingEnv ''1 Elm St'' [])) = 14 \<and>
   availableTimeSlots (windows []) = [] \<and>
   findBestTimeSlot [\<lparr>date = 2, time = 10 * HOUR\<rparr>] (windows []) = None"
proof -
  have 1: "\<not> requiredMissing completeRequest"
    by (simp add: requiredMissing_def completeRequest_def falsy_def)
  have 2: "\<not> isl (getClient workingEnv)"
    by (simp add: workingEnv_def)
  have 3: "availableTimeSlots (windows []) = []"
    by (simp add: windows_def)
  show ?thesis
    using 1 2 3
      route_analysis_total [of workingEnv "''1 Elm St''" "[]" completeRequest "windows []"
        "[\<lparr>date = 2, time = 10 * HOUR\<rparr>]"]
    by (simp add: nextSevenDays_length)
qed

end
